theory Spec2Isabelle
  imports Main "HOL-Library.Word"
begin

section \<open>The C heap as seen by sptr.h\<close>

text \<open>
  sptr.h is a header of three macros over \<^verbatim>\<open>malloc\<close> and \<^verbatim>\<open>free\<close>. The embedding keeps
  the C objects it touches: blocks handed out by the allocator, pointers into them, and the
  handle struct. An address is the identity of a block; \<open>0\<close> is \<^verbatim>\<open>NULL\<close>. A pointer into
  a block is the block's address with a byte offset.
\<close>

type_synonym addr = nat

type_synonym pointer = "addr \<times> int"

text \<open>
  \<^verbatim>\<open>typedef struct { void* ptr; size_t size; char *isf; } sptr;\<close> (checked mode, lines 39-43).
  \<^verbatim>\<open>size_t\<close> is taken as 64 bits wide.
\<close>

record sptr =
  ptr :: addr
  size_sp :: "64 word"
  isf :: addr

text \<open>
  \<^verbatim>\<open>typedef struct { void* ptr; int size;} sptr;\<close> under \<^verbatim>\<open>RELEASE_MODE\<close>, line 32: no flag,
  and the count is an \<^verbatim>\<open>int\<close>, taken as 32 bits wide; the struct is 16 bytes with its padding.
\<close>

record sptr_fast =
  ptr_fast :: addr
  size_fast :: "32 word"

text \<open>
  What an element of a block may hold: a \<^verbatim>\<open>char\<close>, an \<^verbatim>\<open>int\<close>, a handle (a matrix row) of the
  build at hand, or an object of any other type that holds no handle, given by its bytes.
\<close>

datatype val =
  VChar "8 word"
| VInt "32 word"
| VSptr sptr
| VSptr_fast sptr_fast
| VObj "8 word list"

text \<open>
  A block: its size in bytes as requested from \<^verbatim>\<open>malloc\<close>, whether \<^verbatim>\<open>free\<close> has returned
  it to the allocator, and the objects written into it, by byte offset. A fresh block holds
  nothing (\<^verbatim>\<open>malloc\<close> does not initialise). An object written at an offset replaces the one
  that was there; objects at different offsets are taken not to overlap.
\<close>

record block =
  bytes :: nat
  freed :: bool
  cells :: "int \<rightharpoonup> val"

text \<open>
  The allocator's state: the blocks handed out so far, the last address used, and the
  outcomes of the coming \<^verbatim>\<open>malloc\<close> calls (\<open>False\<close>: the call returns \<^verbatim>\<open>NULL\<close>); once the
  list is exhausted every request is satisfied.
\<close>

record state =
  heap :: "addr \<rightharpoonup> block"
  brk :: addr
  avail :: "bool list"

text \<open>
  The four diagnostics the macros print before \<^verbatim>\<open>exit(1)\<close>, and the ways a C program over
  this heap has undefined behaviour instead.
\<close>

datatype error = AllocationFailure | IndexOutOfRange | UseAfterFree | DoubleFree

datatype ub = NullDeref | DanglingDeref | InvalidDeref | UninitRead | InvalidFree

datatype fault = Exit error | Undefined ub

definition malloc :: "nat \<Rightarrow> state \<Rightarrow> addr \<times> state" where
  "malloc n s =
     (case avail s of
        False # os \<Rightarrow> (0, s\<lparr>avail := os\<rparr>)
      | _ \<Rightarrow>
          (Suc (brk s),
           s\<lparr>heap := (heap s)(Suc (brk s) \<mapsto> \<lparr>bytes = n, freed = False, cells = Map.empty\<rparr>),
             brk := Suc (brk s),
             avail := tl (avail s)\<rparr>))"

text \<open>\<^verbatim>\<open>free(p)\<close>: nothing for \<^verbatim>\<open>NULL\<close>; undefined for a pointer that is not a live block.\<close>

definition free :: "addr \<Rightarrow> state \<Rightarrow> fault + state" where
  "free a s =
     (if a = 0 then Inr s
      else (case heap s a of
              None \<Rightarrow> Inl (Undefined InvalidFree)
            | Some b \<Rightarrow>
                if freed b then Inl (Undefined InvalidFree)
                else Inr (s\<lparr>heap := (heap s)(a \<mapsto> b\<lparr>freed := True\<rparr>)\<rparr>)))"

text \<open>
  Whether an object of \<open>w\<close> bytes may be accessed through a pointer: the pointer is not
  null, its block exists, has not been freed, and contains the \<open>w\<close> bytes.
\<close>

definition deref :: "pointer \<Rightarrow> nat \<Rightarrow> state \<Rightarrow> fault + block" where
  "deref p w s =
     (if fst p = 0 then Inl (Undefined NullDeref)
      else (case heap s (fst p) of
              None \<Rightarrow> Inl (Undefined InvalidDeref)
            | Some b \<Rightarrow>
                if freed b then Inl (Undefined DanglingDeref)
                else if snd p < 0 \<or> int (bytes b) < snd p + int w then Inl (Undefined InvalidDeref)
                else Inr b))"

definition load :: "pointer \<Rightarrow> nat \<Rightarrow> state \<Rightarrow> fault + val" where
  "load p w s =
     (case deref p w s of
        Inl e \<Rightarrow> Inl e
      | Inr b \<Rightarrow> (case cells b (snd p) of None \<Rightarrow> Inl (Undefined UninitRead) | Some v \<Rightarrow> Inr v))"

definition store :: "pointer \<Rightarrow> nat \<Rightarrow> val \<Rightarrow> state \<Rightarrow> fault + state" where
  "store p w v s =
     (case deref p w s of
        Inl e \<Rightarrow> Inl e
      | Inr b \<Rightarrow> Inr (s\<lparr>heap := (heap s)(fst p \<mapsto> b\<lparr>cells := (cells b)(snd p \<mapsto> v)\<rparr>)\<rparr>))"

text \<open>The value of \<^verbatim>\<open>*isf\<close> used as a condition: a \<^verbatim>\<open>char\<close> read, true when not zero.\<close>

definition flag :: "addr \<Rightarrow> state \<Rightarrow> fault + bool" where
  "flag f s =
     (case load (f, 0) 1 s of
        Inl e \<Rightarrow> Inl e
      | Inr (VChar c) \<Rightarrow> Inr (c \<noteq> 0)
      | Inr _ \<Rightarrow> Inl (Undefined InvalidDeref))"

section \<open>The checked-mode macros\<close>

text \<open>
  The arguments of the macros are taken as values (a name, a constant or a parenthesised
  expression).

  \<^verbatim>\<open>sptr_alloc(type, size)\<close>, lines 45-54. \<open>tsize\<close> is \<^verbatim>\<open>sizeof(type)\<close> and \<open>n\<close> the count
  after conversion to \<^verbatim>\<open>size_t\<close>; their product wraps. Both \<^verbatim>\<open>malloc\<close> calls come first, then
  \<^verbatim>\<open>*isf = 0\<close>, and only then the test of \<^verbatim>\<open>p\<close>.
\<close>

definition sptr_alloc :: "64 word \<Rightarrow> 64 word \<Rightarrow> state \<Rightarrow> fault + (sptr \<times> state)" where
  "sptr_alloc tsize n s =
     (let (p, s1) = malloc (unat (tsize * n)) s;
          (f, s2) = malloc 1 s1
      in (case store (f, 0) 1 (VChar 0) s2 of
            Inl e \<Rightarrow> Inl e
          | Inr s3 \<Rightarrow>
              if p = 0 then Inl (Exit AllocationFailure)
              else Inr (\<lparr>ptr = p, size_sp = n, isf = f\<rparr>, s3)))"

text \<open>
  \<^verbatim>\<open>sptr_at(type, sp, ind)\<close>, lines 56-66, up to the pointer the macro dereferences. The index
  is a signed integer, given sign-extended to 64 bits: \<^verbatim>\<open>ind>=sp.size\<close> compares it as
  \<^verbatim>\<open>size_t\<close>, \<^verbatim>\<open>ind<0\<close> as signed. The liveness test is \<^verbatim>\<open>*sp.isf || !sp.isf\<close>, in that
  order.
\<close>

definition sptr_at :: "64 word \<Rightarrow> sptr \<Rightarrow> 64 word \<Rightarrow> state \<Rightarrow> fault + pointer" where
  "sptr_at tsize sp ind s =
     (if size_sp sp \<le> ind \<or> sint ind < 0 then Inl (Exit IndexOutOfRange)
      else (case flag (isf sp) s of
              Inl e \<Rightarrow> Inl e
            | Inr c \<Rightarrow>
                if c \<or> isf sp = 0 then Inl (Exit UseAfterFree)
                else Inr (ptr sp, sint ind * uint tsize)))"

text \<open>\<^verbatim>\<open>sptr_free(sp)\<close>, lines 68-77.\<close>

definition sptr_free :: "sptr \<Rightarrow> state \<Rightarrow> fault + state" where
  "sptr_free sp s =
     (case flag (isf sp) s of
        Inl e \<Rightarrow> Inl e
      | Inr c \<Rightarrow>
          if c \<or> isf sp = 0 then Inl (Exit DoubleFree)
          else (case store (isf sp, 0) 1 (VChar 1) s of
                  Inl e \<Rightarrow> Inl e
                | Inr s1 \<Rightarrow>
                    (case free (ptr sp) s1 of
                       Inl e \<Rightarrow> Inl e
                     | Inr s2 \<Rightarrow> free (isf sp) s2)))"

text \<open>Reading and writing the lvalue \<^verbatim>\<open>sptr_at(type, sp, ind)\<close>.\<close>

definition sptr_read :: "64 word \<Rightarrow> sptr \<Rightarrow> 64 word \<Rightarrow> state \<Rightarrow> fault + val" where
  "sptr_read tsize sp ind s =
     (case sptr_at tsize sp ind s of Inl e \<Rightarrow> Inl e | Inr p \<Rightarrow> load p (unat tsize) s)"

definition sptr_write :: "64 word \<Rightarrow> sptr \<Rightarrow> 64 word \<Rightarrow> val \<Rightarrow> state \<Rightarrow> fault + state" where
  "sptr_write tsize sp ind v s =
     (case sptr_at tsize sp ind s of Inl e \<Rightarrow> Inl e | Inr p \<Rightarrow> store p (unat tsize) v s)"

text \<open>
  \<^verbatim>\<open>sptr_mat(type, sp, i, j)\<close>, line 28, is \<^verbatim>\<open>sptr_at(type, sptr_at(sptr, sp, i), j)\<close>: the
  element type of the outer handle is \<^verbatim>\<open>sptr\<close> itself, three 8-byte members in checked mode.
  \<open>sptr_row\<close> is the inner lvalue \<^verbatim>\<open>sptr_at(sptr, sp, i)\<close> read as a handle.
\<close>

definition sizeof_sptr :: "64 word" where
  "sizeof_sptr = 24"

definition sptr_row :: "sptr \<Rightarrow> 64 word \<Rightarrow> state \<Rightarrow> fault + sptr" where
  "sptr_row sp i s =
     (case sptr_read sizeof_sptr sp i s of
        Inl e \<Rightarrow> Inl e
      | Inr (VSptr r) \<Rightarrow> Inr r
      | Inr _ \<Rightarrow> Inl (Undefined InvalidDeref))"

text \<open>
  The macro pastes its argument \<^verbatim>\<open>sp\<close> textually, so the expansion of \<^verbatim>\<open>sptr_mat\<close> evaluates
  the inner \<^verbatim>\<open>sptr_at(sptr, sp, i)\<close> once for each of \<^verbatim>\<open>sp.size\<close>, \<^verbatim>\<open>*sp.isf\<close>, \<^verbatim>\<open>!sp.isf\<close>
  and \<^verbatim>\<open>sp.ptr\<close> that is reached.
\<close>

definition sptr_mat :: "64 word \<Rightarrow> sptr \<Rightarrow> 64 word \<Rightarrow> 64 word \<Rightarrow> state \<Rightarrow> fault + pointer" where
  "sptr_mat tsize sp i j s =
     (case sptr_row sp i s of
        Inl e \<Rightarrow> Inl e
      | Inr r1 \<Rightarrow>
          if size_sp r1 \<le> j \<or> sint j < 0 then Inl (Exit IndexOutOfRange)
          else (case sptr_row sp i s of
                  Inl e \<Rightarrow> Inl e
                | Inr r2 \<Rightarrow>
                    (case flag (isf r2) s of
                       Inl e \<Rightarrow> Inl e
                     | Inr c \<Rightarrow>
                         if c then Inl (Exit UseAfterFree)
                         else (case sptr_row sp i s of
                                 Inl e \<Rightarrow> Inl e
                               | Inr r3 \<Rightarrow>
                                   if isf r3 = 0 then Inl (Exit UseAfterFree)
                                   else (case sptr_row sp i s of
                                           Inl e \<Rightarrow> Inl e
                                         | Inr r4 \<Rightarrow> Inr (ptr r4, sint j * uint tsize))))))"

text \<open>
  A matrix as the header's comment suggests it: an outer handle of \<^verbatim>\<open>sptr\<close> elements, each
  row allocated with its own count and stored with \<^verbatim>\<open>sptr_at(sptr, m, k) = sptr_alloc(type, c)\<close>.
\<close>

fun fill_rows :: "64 word \<Rightarrow> sptr \<Rightarrow> 64 word \<Rightarrow> 64 word list \<Rightarrow> state \<Rightarrow> fault + state" where
  "fill_rows tsize m k [] s = Inr s"
| "fill_rows tsize m k (c # cs) s =
     (case sptr_alloc tsize c s of
        Inl e \<Rightarrow> Inl e
      | Inr (r, s1) \<Rightarrow>
          (case sptr_write sizeof_sptr m k (VSptr r) s1 of
             Inl e \<Rightarrow> Inl e
           | Inr s2 \<Rightarrow> fill_rows tsize m (k + 1) cs s2))"

definition jagged :: "64 word \<Rightarrow> 64 word list \<Rightarrow> state \<Rightarrow> fault + (sptr \<times> state)" where
  "jagged tsize cs s =
     (case sptr_alloc sizeof_sptr (of_nat (length cs)) s of
        Inl e \<Rightarrow> Inl e
      | Inr (m, s1) \<Rightarrow>
          (case fill_rows tsize m 0 cs s1 of
             Inl e \<Rightarrow> Inl e
           | Inr s2 \<Rightarrow> Inr (m, s2)))"

text \<open>
  The data model's invariant of a handle whose flag is false: the flag cell can be read
  and holds zero, and the buffer is a block of its own, not freed, with room for
  \<open>size\<close> elements of the element type.
\<close>

definition live :: "64 word \<Rightarrow> sptr \<Rightarrow> state \<Rightarrow> bool" where
  "live tsize sp s \<longleftrightarrow>
     flag (isf sp) s = Inr False \<and> ptr sp \<noteq> 0 \<and> ptr sp \<noteq> isf sp \<and>
     (case heap s (ptr sp) of
        None \<Rightarrow> False
      | Some b \<Rightarrow> \<not> freed b \<and> unat (size_sp sp) * unat tsize \<le> bytes b)"

text \<open>Running one step after another, stopping at the first fault.\<close>

definition andthen :: "fault + 'a \<Rightarrow> ('a \<Rightarrow> fault + 'b) \<Rightarrow> fault + 'b" where
  "andthen r f = (case r of Inl e \<Rightarrow> Inl e | Inr x \<Rightarrow> f x)"

text \<open>An allocator state with no block handed out and no failure scheduled.\<close>

definition init :: state where
  "init = \<lparr>heap = Map.empty, brk = 0, avail = []\<rparr>"

section \<open>The macros under RELEASE_MODE\<close>


text \<open>\<^verbatim>\<open>((sptr){malloc(sizeof(type)*size),size})\<close>, line 33: the result of \<^verbatim>\<open>malloc\<close> is not tested.\<close>

definition sptr_alloc_fast :: "64 word \<Rightarrow> 64 word \<Rightarrow> state \<Rightarrow> sptr_fast \<times> state" where
  "sptr_alloc_fast tsize n s =
     (let (p, s1) = malloc (unat (tsize * n)) s
      in (\<lparr>ptr_fast = p, size_fast = ucast n\<rparr>, s1))"

text \<open>\<^verbatim>\<open>(*(((type*)sp.ptr)+ind))\<close>, line 34, up to the pointer dereferenced.\<close>

definition sptr_at_fast :: "64 word \<Rightarrow> sptr_fast \<Rightarrow> 64 word \<Rightarrow> pointer" where
  "sptr_at_fast tsize sp ind = (ptr_fast sp, sint ind * uint tsize)"

text \<open>\<^verbatim>\<open>free(sp.ptr)\<close>, line 35.\<close>

definition sptr_free_fast :: "sptr_fast \<Rightarrow> state \<Rightarrow> fault + state" where
  "sptr_free_fast sp s = free (ptr_fast sp) s"



section \<open>Programs over handles\<close>

text \<open>
  A client program as a sequence of macro calls on handle variables. On elements that hold
  no handle, the element type of each call being given by its size: \<^verbatim>\<open>x = sptr_alloc(type, n)\<close>,
  \<^verbatim>\<open>sptr_at(type, x, i) = v\<close>, and a read of \<^verbatim>\<open>sptr_at(type, x, i)\<close> whose value is appended to
  the program's output. On elements of type \<^verbatim>\<open>sptr\<close>: \<^verbatim>\<open>x = sptr_alloc(sptr, n)\<close>,
  \<^verbatim>\<open>sptr_at(sptr, x, i) = y\<close> and \<^verbatim>\<open>y = sptr_at(sptr, x, i)\<close>. On matrices:
  \<^verbatim>\<open>sptr_mat(type, x, i, j) = v\<close> and a read of \<^verbatim>\<open>sptr_mat(type, x, i, j)\<close>. And \<^verbatim>\<open>y = x\<close> and
  \<^verbatim>\<open>sptr_free(x)\<close>. Using a variable that holds no handle is undefined.
\<close>

type_synonym var = nat

datatype data = DChar "8 word" | DInt "32 word" | DObj "8 word list"

fun val_of :: "data \<Rightarrow> val" where
  "val_of (DChar c) = VChar c"
| "val_of (DInt n) = VInt n"
| "val_of (DObj bs) = VObj bs"

datatype stmt =
  Alloc var "64 word" "64 word"
| Copy var var
| Write var "64 word" "64 word" data
| Read var "64 word" "64 word"
| Release var
| AllocH var "64 word"
| Put var "64 word" var
| Get var var "64 word"
| WriteMat var "64 word" "64 word" "64 word" data
| ReadMat var "64 word" "64 word" "64 word"

record machine =
  vars :: "var \<rightharpoonup> sptr"
  mem :: state
  out :: "val list"

fun exec :: "stmt \<Rightarrow> machine \<Rightarrow> fault + machine" where
  "exec (Alloc x tsize n) m =
     (case sptr_alloc tsize n (mem m) of
        Inl e \<Rightarrow> Inl e
      | Inr (h, s) \<Rightarrow> Inr (m\<lparr>vars := (vars m)(x \<mapsto> h), mem := s\<rparr>))"
| "exec (Copy y x) m =
     (case vars m x of
        None \<Rightarrow> Inl (Undefined UninitRead)
      | Some h \<Rightarrow> Inr (m\<lparr>vars := (vars m)(y \<mapsto> h)\<rparr>))"
| "exec (Write x tsize i v) m =
     (case vars m x of
        None \<Rightarrow> Inl (Undefined UninitRead)
      | Some h \<Rightarrow>
          (case sptr_write tsize h i (val_of v) (mem m) of
             Inl e \<Rightarrow> Inl e
           | Inr s \<Rightarrow> Inr (m\<lparr>mem := s\<rparr>)))"
| "exec (Read x tsize i) m =
     (case vars m x of
        None \<Rightarrow> Inl (Undefined UninitRead)
      | Some h \<Rightarrow>
          (case sptr_read tsize h i (mem m) of
             Inl e \<Rightarrow> Inl e
           | Inr v \<Rightarrow> Inr (m\<lparr>out := out m @ [v]\<rparr>)))"
| "exec (Release x) m =
     (case vars m x of
        None \<Rightarrow> Inl (Undefined UninitRead)
      | Some h \<Rightarrow>
          (case sptr_free h (mem m) of
             Inl e \<Rightarrow> Inl e
           | Inr s \<Rightarrow> Inr (m\<lparr>mem := s\<rparr>)))"
| "exec (AllocH x n) m =
     (case sptr_alloc sizeof_sptr n (mem m) of
        Inl e \<Rightarrow> Inl e
      | Inr (h, s) \<Rightarrow> Inr (m\<lparr>vars := (vars m)(x \<mapsto> h), mem := s\<rparr>))"
| "exec (Put x i y) m =
     (case vars m x of
        None \<Rightarrow> Inl (Undefined UninitRead)
      | Some h \<Rightarrow>
          (case vars m y of
             None \<Rightarrow> Inl (Undefined UninitRead)
           | Some r \<Rightarrow>
               (case sptr_write sizeof_sptr h i (VSptr r) (mem m) of
                  Inl e \<Rightarrow> Inl e
                | Inr s \<Rightarrow> Inr (m\<lparr>mem := s\<rparr>))))"
| "exec (Get y x i) m =
     (case vars m x of
        None \<Rightarrow> Inl (Undefined UninitRead)
      | Some h \<Rightarrow>
          (case sptr_row h i (mem m) of
             Inl e \<Rightarrow> Inl e
           | Inr r \<Rightarrow> Inr (m\<lparr>vars := (vars m)(y \<mapsto> r)\<rparr>)))"
| "exec (WriteMat x tsize i j v) m =
     (case vars m x of
        None \<Rightarrow> Inl (Undefined UninitRead)
      | Some h \<Rightarrow>
          (case sptr_mat tsize h i j (mem m) of
             Inl e \<Rightarrow> Inl e
           | Inr p \<Rightarrow>
               (case store p (unat tsize) (val_of v) (mem m) of
                  Inl e \<Rightarrow> Inl e
                | Inr s \<Rightarrow> Inr (m\<lparr>mem := s\<rparr>))))"
| "exec (ReadMat x tsize i j) m =
     (case vars m x of
        None \<Rightarrow> Inl (Undefined UninitRead)
      | Some h \<Rightarrow>
          (case sptr_mat tsize h i j (mem m) of
             Inl e \<Rightarrow> Inl e
           | Inr p \<Rightarrow>
               (case load p (unat tsize) (mem m) of
                  Inl e \<Rightarrow> Inl e
                | Inr v \<Rightarrow> Inr (m\<lparr>out := out m @ [v]\<rparr>))))"

fun run :: "stmt list \<Rightarrow> machine \<Rightarrow> fault + machine" where
  "run [] m = Inr m"
| "run (c # cs) m = (case exec c m of Inl e \<Rightarrow> Inl e | Inr m' \<Rightarrow> run cs m')"

text \<open>The same program compiled with \<^verbatim>\<open>RELEASE_MODE\<close> defined.\<close>

record machine_fast =
  vars_fast :: "var \<rightharpoonup> sptr_fast"
  mem_fast :: state
  out_fast :: "val list"











definition start :: "bool list \<Rightarrow> machine" where
  "start os = \<lparr>vars = Map.empty, mem = init\<lparr>avail := os\<rparr>, out = []\<rparr>"

definition start_fast :: machine_fast where
  "start_fast = \<lparr>vars_fast = Map.empty, mem_fast = init, out_fast = []\<rparr>"

section \<open>Basic facts about the heap operations\<close>

lemma sint_nonneg_uint: "0 \<le> sint (w :: 64 word) \<Longrightarrow> sint w = uint w"
proof -
  assume a: "0 \<le> sint w"
  have "sint w < 2 ^ 64" using sint_lt [of w] by simp
  then have "take_bit 64 (sint w) = sint w" using a by (simp add: take_bit_int_eq_self)
  then show ?thesis using uint_sint [of w] by simp
qed

lemma index_test: "(sz \<le> ind \<or> sint ind < 0) \<longleftrightarrow> (sint ind < 0 \<or> uint sz \<le> sint (ind :: 64 word))"
  for sz :: "64 word"
proof (cases "sint ind < 0")
  case True then show ?thesis by simp
next
  case False
  then have "sint ind = uint ind" by (simp add: sint_nonneg_uint)
  with False show ?thesis by (simp add: word_le_def)
qed

lemma deref_Inr:
  "deref p w s = Inr b \<longleftrightarrow>
     fst p \<noteq> 0 \<and> heap s (fst p) = Some b \<and> \<not> freed b \<and> 0 \<le> snd p \<and> snd p + int w \<le> int (bytes b)"
  by (auto simp: deref_def split: option.splits)

lemma flag_Inr:
  "flag f s = Inr c \<longleftrightarrow>
     (\<exists>b ch. f \<noteq> 0 \<and> heap s f = Some b \<and> \<not> freed b \<and> 1 \<le> bytes b \<and>
             cells b 0 = Some (VChar ch) \<and> c = (ch \<noteq> 0))"
proof
  assume "flag f s = Inr c"
  then show "\<exists>b ch. f \<noteq> 0 \<and> heap s f = Some b \<and> \<not> freed b \<and> 1 \<le> bytes b \<and>
             cells b 0 = Some (VChar ch) \<and> c = (ch \<noteq> 0)"
  proof (cases "deref (f, 0) 1 s")
    case (Inl e)
    with \<open>flag f s = Inr c\<close> show ?thesis by (simp add: flag_def load_def)
  next
    case (Inr b)
    then have "f \<noteq> 0 \<and> heap s f = Some b \<and> \<not> freed b \<and> 1 \<le> bytes b"
      by (simp add: deref_Inr)
    moreover have "\<exists>ch. cells b 0 = Some (VChar ch) \<and> c = (ch \<noteq> 0)"
      using Inr \<open>flag f s = Inr c\<close>
      by (auto simp: flag_def load_def split: option.splits val.splits)
    ultimately show ?thesis by blast
  qed
next
  assume "\<exists>b ch. f \<noteq> 0 \<and> heap s f = Some b \<and> \<not> freed b \<and> 1 \<le> bytes b \<and>
             cells b 0 = Some (VChar ch) \<and> c = (ch \<noteq> 0)"
  then obtain b ch where *: "f \<noteq> 0" "heap s f = Some b" "\<not> freed b" "1 \<le> bytes b"
    "cells b 0 = Some (VChar ch)" "c = (ch \<noteq> 0)" by blast
  then have "deref (f, 0) 1 s = Inr b" by (simp add: deref_Inr)
  with * show "flag f s = Inr c" by (simp add: flag_def load_def)
qed

lemma flag_store_other:
  assumes "store p w v s = Inr s'" "fst p \<noteq> f"
  shows "flag f s' = flag f s"
  using assms by (auto simp: flag_def load_def store_def deref_def split: sum.splits option.splits if_splits)

lemma sptr_at_out_of_range:
  "sint ind < 0 \<or> uint (size_sp sp) \<le> sint ind \<Longrightarrow> sptr_at tsize sp ind s = Inl (Exit IndexOutOfRange)"
  by (simp add: sptr_at_def index_test)

lemma sptr_at_in_range:
  "0 \<le> sint ind \<Longrightarrow> sint ind < uint (size_sp sp) \<Longrightarrow> flag (isf sp) s = Inr False \<Longrightarrow>
   sptr_at tsize sp ind s = Inr (ptr sp, sint ind * uint tsize)"
proof -
  assume a: "0 \<le> sint ind" "sint ind < uint (size_sp sp)" "flag (isf sp) s = Inr False"
  then have "\<not> (size_sp sp \<le> ind \<or> sint ind < 0)"
    using index_test [of "size_sp sp" ind] by linarith
  moreover have "isf sp \<noteq> 0" using a(3) by (auto simp: flag_def load_def deref_def split: if_splits)
  ultimately show ?thesis using a(3) by (simp add: sptr_at_def)
qed

lemma sptr_alloc_ok:
  assumes "False \<notin> set (take 2 (avail s))"
  shows "sptr_alloc tsize n s =
     Inr (\<lparr>ptr = Suc (brk s), size_sp = n, isf = Suc (Suc (brk s))\<rparr>,
          s\<lparr>heap := (heap s)(Suc (brk s) \<mapsto> \<lparr>bytes = unat (tsize * n), freed = False, cells = Map.empty\<rparr>,
                             Suc (Suc (brk s)) \<mapsto> \<lparr>bytes = 1, freed = False, cells = [0 \<mapsto> VChar 0]\<rparr>),
            brk := Suc (Suc (brk s)), avail := tl (tl (avail s))\<rparr>)"
proof (cases "avail s")
  case Nil
  then show ?thesis by (simp add: sptr_alloc_def malloc_def store_def deref_def)
next
  case (Cons a os)
  with assms have a: "a" by auto
  show ?thesis
  proof (cases os)
    case Nil
    with Cons a show ?thesis by (simp add: sptr_alloc_def malloc_def store_def deref_def)
  next
    case (Cons b os')
    with \<open>avail s = a # os\<close> assms have "b" by auto
    with Cons a \<open>avail s = a # os\<close> show ?thesis
      by (simp add: sptr_alloc_def malloc_def store_def deref_def)
  qed
qed

lemma sptr_alloc_live:
  assumes ok: "False \<notin> set (take 2 (avail s))" and fit: "unat n * unat tsize < 2 ^ 64"
    and al: "sptr_alloc tsize n s = Inr (h, s')"
  shows "live tsize h s'"
proof -
  have "unat (tsize * n) = unat n * unat tsize"
    using fit by (simp add: unat_word_ariths mult.commute)
  then show ?thesis
    using al sptr_alloc_ok [OF ok, of tsize n]
    by (auto simp: live_def flag_Inr)
qed

section \<open>Allocation followed by indexed access\<close>




section \<open>Writing and reading an element\<close>

text \<open>
  Claim C8. For a live handle, an element type of non-zero size and an index \<open>i\<close> in
  \<open>[0, size)\<close>: writing \<open>v\<close> through \<^verbatim>\<open>sptr_at(type, h, i)\<close> succeeds, reading the same element
  afterwards yields \<open>v\<close>, reading any other element in range yields what it yielded before
  the write, and the handle is still live.
\<close>

theorem write_read_round_trip:
  assumes lv: "live tsize h s" and pos: "0 < tsize"
    and lo: "0 \<le> sint i" and hi: "sint i < uint (size_sp h)"
  shows "\<exists>s'. sptr_write tsize h i v s = Inr s' \<and>
           sptr_read tsize h i s' = Inr v \<and>
           (\<forall>j. 0 \<le> sint j \<and> sint j < uint (size_sp h) \<and> j \<noteq> i \<longrightarrow>
                 sptr_read tsize h j s' = sptr_read tsize h j s) \<and>
           live tsize h s'"
proof -
  from lv obtain b where fl: "flag (isf h) s = Inr False" and nz: "ptr h \<noteq> 0"
    and ne: "ptr h \<noteq> isf h" and hb: "heap s (ptr h) = Some b" and nf: "\<not> freed b"
    and room: "unat (size_sp h) * unat tsize \<le> bytes b"
    by (auto simp: live_def split: option.splits)
  let ?p = "(ptr h, sint i * uint tsize)"
  have dr: "deref (ptr h, sint j * uint tsize) (unat tsize) s = Inr b"
    if j: "0 \<le> sint j" "sint j < uint (size_sp h)" for j :: "64 word"
  proof -
    have "(sint j + 1) * uint tsize \<le> uint (size_sp h) * uint tsize"
      using j(2) by (intro mult_right_mono) auto
    also have "\<dots> = int (unat (size_sp h) * unat tsize)" by simp
    also have "\<dots> \<le> int (bytes b)" using room by (simp only: of_nat_le_iff)
    finally have fit: "sint j * uint tsize + int (unat tsize) \<le> int (bytes b)"
      by (simp add: algebra_simps)
    have off: "0 \<le> sint j * uint tsize" using j(1) by simp
    show ?thesis using nz hb nf off fit by (simp add: deref_Inr)
  qed
  define b' where "b' = b\<lparr>cells := (cells b)(sint i * uint tsize \<mapsto> v)\<rparr>"
  define s' where "s' = s\<lparr>heap := (heap s)(ptr h \<mapsto> b')\<rparr>"
  have hb': "heap s' (ptr h) = Some b'" by (simp add: s'_def)
  have dr': "deref (ptr h, sint j * uint tsize) (unat tsize) s' = Inr b'"
    if j: "0 \<le> sint j" "sint j < uint (size_sp h)" for j :: "64 word"
    using dr [OF j] hb' by (simp add: deref_Inr b'_def)
  have at: "sptr_at tsize h j s = Inr (ptr h, sint j * uint tsize)"
    if j: "0 \<le> sint j" "sint j < uint (size_sp h)" for j :: "64 word"
    using j fl by (rule sptr_at_in_range)
  have st: "store ?p (unat tsize) v s = Inr s'"
    using dr [OF lo hi] by (simp add: store_def s'_def b'_def)
  have wr: "sptr_write tsize h i v s = Inr s'"
    using at [OF lo hi] st by (simp add: sptr_write_def)
  have fl': "flag (isf h) s' = Inr False"
    using flag_store_other [OF st] ne fl by simp
  have lv': "live tsize h s'"
    using fl' nz ne hb' nf room by (simp add: live_def b'_def)
  have at': "sptr_at tsize h j s' = Inr (ptr h, sint j * uint tsize)"
    if j: "0 \<le> sint j" "sint j < uint (size_sp h)" for j :: "64 word"
    using j fl' by (rule sptr_at_in_range)
  have rd: "sptr_read tsize h i s' = Inr v"
    using at' [OF lo hi] dr' [OF lo hi] by (simp add: sptr_read_def load_def b'_def)
  have oth: "sptr_read tsize h j s' = sptr_read tsize h j s"
    if j: "0 \<le> sint j" "sint j < uint (size_sp h)" "j \<noteq> i" for j
  proof -
    have "sint j \<noteq> sint i" using j(3) by (metis of_int_sint scast_id)
    moreover have "uint tsize \<noteq> 0" using pos by (simp add: word_less_def)
    ultimately have d: "sint j * uint tsize \<noteq> sint i * uint tsize" by simp
    show ?thesis
      using at' [OF j(1,2)] at [OF j(1,2)] dr' [OF j(1,2)] dr [OF j(1,2)] d
      by (simp add: sptr_read_def load_def b'_def)
  qed
  show ?thesis using wr rd oth lv' by blast
qed

theorem write_read_round_trip_witness:
  "\<exists>h s. sptr_alloc 4 10 init = Inr (h, s) \<and> live 4 h s \<and> (0 :: 64 word) < 4 \<and>
      0 \<le> sint (5 :: 64 word) \<and> sint (5 :: 64 word) < uint (size_sp h) \<and>
      (\<exists>s'. sptr_write 4 h 5 (VInt 42) s = Inr s' \<and>
               sptr_read 4 h 5 s' = Inr (VInt 42) \<and>
               sptr_read 4 h 6 s' = sptr_read 4 h 6 s \<and> live 4 h s')"
proof -
  have a: "False \<notin> set (take 2 (avail init))" by (simp add: init_def)
  obtain h s where al: "sptr_alloc 4 10 init = Inr (h, s)" and sz: "size_sp h = 10"
    using sptr_alloc_ok [OF a, of 4 10] by simp
  have lv: "live 4 h s" using a _ al by (rule sptr_alloc_live) simp
  have pos: "(0 :: 64 word) < 4" by simp
  have lo: "0 \<le> sint (5 :: 64 word)" by simp
  have hi: "sint (5 :: 64 word) < uint (size_sp h)" by (simp add: sz)
  from write_read_round_trip [OF lv pos lo hi, of "VInt 42"] obtain s' where
    wr: "sptr_write 4 h 5 (VInt 42) s = Inr s'" and rd: "sptr_read 4 h 5 s' = Inr (VInt 42)"
    and oth: "\<And>j. 0 \<le> sint j \<and> sint j < uint (size_sp h) \<and> j \<noteq> 5 \<Longrightarrow>
                sptr_read 4 h j s' = sptr_read 4 h j s"
    and lv': "live 4 h s'"
    by blast
  have "sptr_read 4 h 6 s' = sptr_read 4 h 6 s" using oth [of 6] by (simp add: sz)
  with al lv pos lo hi wr rd lv' show ?thesis by blast
qed

section \<open>Two-dimensional access\<close>

lemma sptr_mat_andthen:
  "sptr_mat tsize sp i j s = andthen (sptr_row sp i s) (\<lambda>r. sptr_at tsize r j s)"
  by (auto simp: sptr_mat_def andthen_def sptr_at_def split: sum.splits)

lemma sptr_row_out_of_range:
  "sint i < 0 \<or> uint (size_sp sp) \<le> sint i \<Longrightarrow> sptr_row sp i s = Inl (Exit IndexOutOfRange)"
  by (simp add: sptr_row_def sptr_read_def sptr_at_out_of_range)

text \<open>
  Claim C7. \<^verbatim>\<open>sptr_mat(type, sp, i, j)\<close> is the access to the outer handle at \<open>i\<close> followed by
  the access to the row found there at \<open>j\<close>. A row index outside the outer handle's range is
  reported as out of range whatever the column index is. Rows keep their own counts: for
  the matrix with row counts 3, 1 and 5, element \<open>(1, 0)\<close> is the first element of row 1,
  while \<open>(1, 1)\<close> and \<open>(3, 0)\<close> are reported as out of range.
\<close>

theorem sptr_mat_nested:
  "sptr_mat tsize sp i j s = andthen (sptr_row sp i s) (\<lambda>r. sptr_at tsize r j s) \<and>
   (sint i < 0 \<or> uint (size_sp sp) \<le> sint i \<longrightarrow>
      sptr_mat tsize sp i j s = Inl (Exit IndexOutOfRange)) \<and>
   (\<exists>m t. jagged 4 [3, 1, 5] init = Inr (m, t) \<and>
      sptr_row m 0 t = Inr \<lparr>ptr = 3, size_sp = 3, isf = 4\<rparr> \<and>
      sptr_row m 1 t = Inr \<lparr>ptr = 5, size_sp = 1, isf = 6\<rparr> \<and>
      sptr_row m 2 t = Inr \<lparr>ptr = 7, size_sp = 5, isf = 8\<rparr> \<and>
      sptr_mat 4 m 1 0 t = Inr (5, 0) \<and>
      sptr_mat 4 m 1 1 t = Inl (Exit IndexOutOfRange) \<and>
      sptr_mat 4 m 3 0 t = Inl (Exit IndexOutOfRange))"
proof (intro conjI impI)
  show "sptr_mat tsize sp i j s = andthen (sptr_row sp i s) (\<lambda>r. sptr_at tsize r j s)"
    by (rule sptr_mat_andthen)
next
  assume "sint i < 0 \<or> uint (size_sp sp) \<le> sint i"
  then show "sptr_mat tsize sp i j s = Inl (Exit IndexOutOfRange)"
    by (simp add: sptr_mat_andthen sptr_row_out_of_range andthen_def)
next
  show "\<exists>m t. jagged 4 [3, 1, 5] init = Inr (m, t) \<and>
      sptr_row m 0 t = Inr \<lparr>ptr = 3, size_sp = 3, isf = 4\<rparr> \<and>
      sptr_row m 1 t = Inr \<lparr>ptr = 5, size_sp = 1, isf = 6\<rparr> \<and>
      sptr_row m 2 t = Inr \<lparr>ptr = 7, size_sp = 5, isf = 8\<rparr> \<and>
      sptr_mat 4 m 1 0 t = Inr (5, 0) \<and>
      sptr_mat 4 m 1 1 t = Inl (Exit IndexOutOfRange) \<and>
      sptr_mat 4 m 3 0 t = Inl (Exit IndexOutOfRange)"
    by (simp add: jagged_def sptr_alloc_def malloc_def store_def deref_def load_def flag_def
        sptr_write_def sptr_read_def sptr_at_def sptr_row_def sizeof_sptr_def init_def
        andthen_def sptr_mat_andthen word_le_def)
qed

theorem sptr_mat_nested_witness:
  "\<exists>m t. jagged 4 [3, 1, 5] init = Inr (m, t) \<and>
      uint (size_sp m) \<le> sint (3 :: 64 word) \<and>
      sptr_mat 4 m 3 7 t = Inl (Exit IndexOutOfRange) \<and>
      sptr_mat 4 m 2 4 t = andthen (sptr_row m 2 t) (\<lambda>r. sptr_at 4 r 4 t)"
proof -
  obtain m t where j: "jagged 4 [3, 1, 5] init = Inr (m, t)" and sz: "size_sp m = 3"
    by (simp add: jagged_def sptr_alloc_def malloc_def store_def deref_def load_def flag_def
        sptr_write_def sptr_at_def sizeof_sptr_def init_def word_le_def)
  have r: "uint (size_sp m) \<le> sint (3 :: 64 word)" by (simp add: sz)
  have "sptr_mat 4 m 3 7 t = Inl (Exit IndexOutOfRange)"
    using sptr_mat_nested [of 4 m 3 7 t] r by blast
  moreover have "sptr_mat 4 m 2 4 t = andthen (sptr_row m 2 t) (\<lambda>r. sptr_at 4 r 4 t)"
    using sptr_mat_nested [of 4 m 2 4 t] by blast
  ultimately show ?thesis using j r by blast
qed

section \<open>Release\<close>

lemma free_Inr:
  "free a s = Inr s' \<longleftrightarrow>
     (if a = 0 then s' = s
      else \<exists>b. heap s a = Some b \<and> \<not> freed b \<and> s' = s\<lparr>heap := (heap s)(a \<mapsto> b\<lparr>freed := True\<rparr>)\<rparr>)"
  by (auto simp: free_def split: option.splits)


lemma sptr_free_Inr:
  assumes "sptr_free sp s = Inr s'"
  shows "\<exists>bf. isf sp \<noteq> 0 \<and> ptr sp \<noteq> isf sp \<and> heap s (isf sp) = Some bf \<and> \<not> freed bf \<and>
           1 \<le> bytes bf \<and> cells bf 0 = Some (VChar 0) \<and>
           (ptr sp \<noteq> 0 \<longrightarrow> (\<exists>bp. heap s (ptr sp) = Some bp \<and> \<not> freed bp)) \<and>
           heap s' = (\<lambda>a. if a = isf sp then Some (bf\<lparr>cells := (cells bf)(0 \<mapsto> VChar 1), freed := True\<rparr>)
                          else if a = ptr sp \<and> a \<noteq> 0 then map_option (\<lambda>b. b\<lparr>freed := True\<rparr>) (heap s a)
                          else heap s a) \<and>
           brk s' = brk s \<and> avail s' = avail s"
proof -
  from assms obtain c where fl: "flag (isf sp) s = Inr c"
    by (cases "flag (isf sp) s") (auto simp: sptr_free_def)
  with assms have c: "\<not> c" and nz: "isf sp \<noteq> 0"
    by (auto simp: sptr_free_def split: if_splits)
  from fl c obtain bf where bf: "heap s (isf sp) = Some bf" "\<not> freed bf" "1 \<le> bytes bf"
    "cells bf 0 = Some (VChar 0)"
    by (auto simp: flag_Inr)
  have dr: "deref (isf sp, 0) 1 s = Inr bf" using nz bf by (simp add: deref_Inr)
  define s1 where "s1 = s\<lparr>heap := (heap s)(isf sp \<mapsto> bf\<lparr>cells := (cells bf)(0 \<mapsto> VChar 1)\<rparr>)\<rparr>"
  have st: "store (isf sp, 0) 1 (VChar 1) s = Inr s1"
    using dr by (simp add: store_def s1_def)
  from assms fl c nz st obtain s2 where f1: "free (ptr sp) s1 = Inr s2" and f2: "free (isf sp) s2 = Inr s'"
    by (cases "free (ptr sp) s1") (auto simp: sptr_free_def)
  show ?thesis
  proof (cases "ptr sp = 0")
    case True
    with f1 have "s2 = s1" by (simp add: free_Inr)
    with f2 nz have "s' = s1\<lparr>heap := (heap s1)(isf sp \<mapsto> (bf\<lparr>cells := (cells bf)(0 \<mapsto> VChar 1)\<rparr>)\<lparr>freed := True\<rparr>)\<rparr>"
      by (auto simp: free_Inr s1_def)
    then show ?thesis using True nz bf by (auto simp: s1_def fun_eq_iff)
  next
    case False
    with f1 obtain bp where bp: "heap s1 (ptr sp) = Some bp" "\<not> freed bp"
      and s2: "s2 = s1\<lparr>heap := (heap s1)(ptr sp \<mapsto> bp\<lparr>freed := True\<rparr>)\<rparr>"
      by (auto simp: free_Inr)
    have ne: "ptr sp \<noteq> isf sp"
    proof
      assume "ptr sp = isf sp"
      with s2 f2 nz show False by (auto simp: free_Inr)
    qed
    with bp have bp0: "heap s (ptr sp) = Some bp" by (simp add: s1_def)
    from f2 nz s2 ne have "s' = s2\<lparr>heap := (heap s2)(isf sp \<mapsto> (bf\<lparr>cells := (cells bf)(0 \<mapsto> VChar 1)\<rparr>)\<lparr>freed := True\<rparr>)\<rparr>"
      by (auto simp: free_Inr s1_def)
    then show ?thesis using False nz ne bf bp0 bp(2) s2 by (auto simp: s1_def fun_eq_iff)
  qed
qed

lemma sptr_free_retires_flag:
  assumes "sptr_free sp s = Inr s'"
  shows "flag (isf sp) s' = Inl (Undefined DanglingDeref)"
proof -
  from sptr_free_Inr [OF assms] obtain bf where nz: "isf sp \<noteq> 0"
    and h': "heap s' = (\<lambda>a. if a = isf sp then Some (bf\<lparr>cells := (cells bf)(0 \<mapsto> VChar 1), freed := True\<rparr>)
                          else if a = ptr sp \<and> a \<noteq> 0 then map_option (\<lambda>b. b\<lparr>freed := True\<rparr>) (heap s a)
                          else heap s a)"
    by blast
  show ?thesis using nz by (simp add: flag_def load_def deref_def h')
qed

lemmas run_defs = sptr_alloc_def malloc_def store_def deref_def load_def flag_def free_def
  sptr_write_def sptr_read_def sptr_at_def sptr_free_def init_def andthen_def word_le_def

text \<open>
  Claim C1. The scenario of a handle and its copy: ten \<^verbatim>\<open>int\<close> elements are allocated, 42 is
  written at index 5 and read back through the copy, and the handle is released. The release
  ends with \<^verbatim>\<open>free(sp.isf)\<close>, so the flag cell that the copy shares is itself returned to
  the allocator: the access through the copy at index 5 and the release through the copy
  both read \<^verbatim>\<open>*sp.isf\<close> in freed memory, which is undefined behaviour, where a use after free
  and a double free were to be reported.
\<close>

theorem use_after_release_through_copy:
  "\<exists>h1 h2 s0 s1 s2.
      sptr_alloc 4 10 init = Inr (h1, s0) \<and> h2 = h1 \<and>
      sptr_write 4 h1 5 (VInt 42) s0 = Inr s1 \<and>
      sptr_read 4 h2 5 s1 = Inr (VInt 42) \<and>
      sptr_free h1 s1 = Inr s2 \<and>
      sptr_at 4 h2 5 s2 = Inl (Undefined DanglingDeref) \<and>
      sptr_free h2 s2 = Inl (Undefined DanglingDeref)"
  by (simp add: run_defs)

text \<open>
  Claim C3. After any successful \<^verbatim>\<open>sptr_free\<close>, the block of the flag cell is a freed block.
  The liveness test of \<^verbatim>\<open>sptr_at\<close> at every index in range, for every element type, and the
  double-free test of \<^verbatim>\<open>sptr_free\<close> read that freed cell: what they do is undefined, not a
  reported error.
\<close>

theorem checks_read_freed_flag:
  assumes "sptr_free sp s = Inr s'"
  shows "(\<exists>b. heap s' (isf sp) = Some b \<and> freed b) \<and>
         sptr_free sp s' = Inl (Undefined DanglingDeref) \<and>
         (\<forall>tsize i. 0 \<le> sint i \<and> sint i < uint (size_sp sp) \<longrightarrow>
            sptr_at tsize sp i s' = Inl (Undefined DanglingDeref))"
proof -
  have fl: "flag (isf sp) s' = Inl (Undefined DanglingDeref)"
    using assms by (rule sptr_free_retires_flag)
  from sptr_free_Inr [OF assms] obtain bf where
    h': "heap s' = (\<lambda>a. if a = isf sp then Some (bf\<lparr>cells := (cells bf)(0 \<mapsto> VChar 1), freed := True\<rparr>)
                          else if a = ptr sp \<and> a \<noteq> 0 then map_option (\<lambda>b. b\<lparr>freed := True\<rparr>) (heap s a)
                          else heap s a)"
    by blast
  have blk: "\<exists>b. heap s' (isf sp) = Some b \<and> freed b" by (simp add: h')
  have fr: "sptr_free sp s' = Inl (Undefined DanglingDeref)"
    using fl by (simp add: sptr_free_def)
  have at: "sptr_at tsize sp i s' = Inl (Undefined DanglingDeref)"
    if "0 \<le> sint i \<and> sint i < uint (size_sp sp)" for tsize i
  proof -
    have "\<not> (size_sp sp \<le> i \<or> sint i < 0)"
      using that index_test [of "size_sp sp" i] by linarith
    then show ?thesis using fl by (simp add: sptr_at_def)
  qed
  show ?thesis using blk fr at by blast
qed

theorem checks_read_freed_flag_witness:
  "\<exists>h s s'. sptr_alloc 4 10 init = Inr (h, s) \<and> sptr_free h s = Inr s' \<and>
      (\<exists>b. heap s' (isf h) = Some b \<and> freed b) \<and>
      sptr_free h s' = Inl (Undefined DanglingDeref) \<and>
      0 \<le> sint (5 :: 64 word) \<and> sint (5 :: 64 word) < uint (size_sp h) \<and>
      sptr_at 4 h 5 s' = Inl (Undefined DanglingDeref)"
proof -
  obtain h s s' where al: "sptr_alloc 4 10 init = Inr (h, s)" and sz: "size_sp h = 10"
    and fr: "sptr_free h s = Inr s'"
    by (simp add: run_defs)
  have r: "0 \<le> sint (5 :: 64 word) \<and> sint (5 :: 64 word) < uint (size_sp h)"
    by (simp add: sz)
  from checks_read_freed_flag [OF fr] r
  have "(\<exists>b. heap s' (isf h) = Some b \<and> freed b) \<and>
      sptr_free h s' = Inl (Undefined DanglingDeref) \<and>
      sptr_at 4 h 5 s' = Inl (Undefined DanglingDeref)"
    by blast
  with al fr r show ?thesis by blast
qed

text \<open>
  Claim C4. Releasing a freshly allocated handle succeeds and leaves the flag cell set to 1
  in a block that has been freed. A second release of the same handle reads that freed cell
  in its double-free test: undefined behaviour, where a double free was to be reported.
\<close>

theorem second_release_reads_freed_flag:
  "\<exists>h s s'.
      sptr_alloc 4 10 init = Inr (h, s) \<and>
      sptr_free h s = Inr s' \<and>
      heap s' (isf h) = Some \<lparr>bytes = 1, freed = True, cells = [0 \<mapsto> VChar 1]\<rparr> \<and>
      sptr_free h s' = Inl (Undefined DanglingDeref)"
  by (simp add: run_defs)

text \<open>
  Claim C2. For a handle whose \<^verbatim>\<open>isf\<close> is null, \<^verbatim>\<open>*sp.isf || !sp.isf\<close> evaluates \<^verbatim>\<open>*sp.isf\<close>
  first: \<^verbatim>\<open>sptr_free\<close>, and \<^verbatim>\<open>sptr_at\<close> at every index in range, dereference the null pointer,
  which is undefined behaviour; the test \<^verbatim>\<open>!sp.isf\<close> is never reached and no error is reported.
\<close>

theorem null_flag_dereferenced:
  assumes "isf sp = 0"
  shows "sptr_free sp s = Inl (Undefined NullDeref) \<and>
         (0 \<le> sint i \<and> sint i < uint (size_sp sp) \<longrightarrow>
            sptr_at tsize sp i s = Inl (Undefined NullDeref))"
proof -
  have fl: "flag (isf sp) s = Inl (Undefined NullDeref)"
    using assms by (simp add: flag_def load_def deref_def)
  have "sptr_at tsize sp i s = Inl (Undefined NullDeref)"
    if "0 \<le> sint i \<and> sint i < uint (size_sp sp)"
  proof -
    have "\<not> (size_sp sp \<le> i \<or> sint i < 0)"
      using that index_test [of "size_sp sp" i] by linarith
    then show ?thesis using fl by (simp add: sptr_at_def)
  qed
  then show ?thesis using fl by (simp add: sptr_free_def)
qed

theorem null_flag_dereferenced_witness:
  "isf \<lparr>ptr = 0, size_sp = 1, isf = 0\<rparr> = 0 \<and>
   sptr_free \<lparr>ptr = 0, size_sp = 1, isf = 0\<rparr> init = Inl (Undefined NullDeref) \<and>
   0 \<le> sint (0 :: 64 word) \<and> sint (0 :: 64 word) < uint (size_sp \<lparr>ptr = 0, size_sp = 1, isf = 0\<rparr>) \<and>
   sptr_at 4 \<lparr>ptr = 0, size_sp = 1, isf = 0\<rparr> 0 init = Inl (Undefined NullDeref)"
  using null_flag_dereferenced [of "\<lparr>ptr = 0, size_sp = 1, isf = 0\<rparr>" init 0 4] by simp

section \<open>Allocation failure\<close>

text \<open>
  Claim C6. When the second \<^verbatim>\<open>malloc\<close> of \<^verbatim>\<open>sptr_alloc\<close> (the flag cell) returns \<^verbatim>\<open>NULL\<close>,
  whether or not the first one succeeded, the macro executes \<^verbatim>\<open>*isf = 0\<close> through the null
  pointer: undefined behaviour, and no allocation failure is reported. Only \<^verbatim>\<open>p\<close> is tested,
  and only after that write.
\<close>

theorem sptr_alloc_flag_unchecked:
  assumes "avail s = a # False # os"
  shows "sptr_alloc tsize n s = Inl (Undefined NullDeref)"
  using assms by (cases a) (simp_all add: sptr_alloc_def malloc_def store_def deref_def)

theorem sptr_alloc_flag_unchecked_witness:
  "avail (init\<lparr>avail := [True, False]\<rparr>) = True # False # [] \<and>
   sptr_alloc 4 10 (init\<lparr>avail := [True, False]\<rparr>) = Inl (Undefined NullDeref)"
  using sptr_alloc_flag_unchecked [of "init\<lparr>avail := [True, False]\<rparr>" True "[]" 4 10] by simp

section \<open>Programs: what a release changes\<close>

lemmas prog_defs = start_def start_fast_def init_def sptr_alloc_def sptr_alloc_fast_def malloc_def
  store_def load_def deref_def flag_def free_def sptr_write_def sptr_read_def sptr_at_def
  sptr_at_fast_def sptr_free_def sptr_free_fast_def word_le_def

text \<open>
  Claim C10. A successful \<^verbatim>\<open>sptr_free(x)\<close> leaves every handle variable of the program as
  it was, with its \<^verbatim>\<open>ptr\<close>, \<^verbatim>\<open>size\<close> and \<^verbatim>\<open>isf\<close>, the released one and its copies included.
  In memory it writes 1 into the flag cell and marks the flag block and the element block
  as freed; every other block, and every other cell of these two, is unchanged, so handles
  stored in memory keep their fields as well. The allocator's other state is unchanged.
\<close>

theorem release_changes_no_handle:
  assumes "exec (Release x) m = Inr m'"
  shows "vars m' = vars m \<and> out m' = out m \<and>
         brk (mem m') = brk (mem m) \<and> avail (mem m') = avail (mem m) \<and>
         (\<exists>h bf. vars m x = Some h \<and> heap (mem m) (isf h) = Some bf \<and>
            heap (mem m') =
              (\<lambda>a. if a = isf h
                    then Some (bf\<lparr>cells := (cells bf)(0 \<mapsto> VChar 1), freed := True\<rparr>)
                    else if a = ptr h \<and> a \<noteq> 0
                    then map_option (\<lambda>b. b\<lparr>freed := True\<rparr>) (heap (mem m) a)
                    else heap (mem m) a))"
proof -
  from assms obtain h where vx: "vars m x = Some h" by (cases "vars m x") auto
  with assms obtain s where fr: "sptr_free h (mem m) = Inr s" and m': "m' = m\<lparr>mem := s\<rparr>"
    by (cases "sptr_free h (mem m)") auto
  from sptr_free_Inr [OF fr] vx show ?thesis by (auto simp: m')
qed

theorem release_changes_no_handle_witness:
  "\<exists>m m'. run [Alloc 0 4 10, Copy 1 0] (start []) = Inr m \<and>
      exec (Release 0) m = Inr m' \<and>
      vars m' 0 = Some \<lparr>ptr = 1, size_sp = 10, isf = 2\<rparr> \<and>
      vars m' 1 = Some \<lparr>ptr = 1, size_sp = 10, isf = 2\<rparr> \<and>
      vars m' = vars m \<and> brk (mem m') = brk (mem m)"
proof -
  obtain m where r: "run [Alloc 0 4 10, Copy 1 0] (start []) = Inr m"
    and v: "vars m 0 = Some \<lparr>ptr = 1, size_sp = 10, isf = 2\<rparr>"
      "vars m 1 = Some \<lparr>ptr = 1, size_sp = 10, isf = 2\<rparr>"
    by (simp add: prog_defs)
  obtain m' where e: "exec (Release 0) m = Inr m'"
    using r by (auto simp: prog_defs)
  from release_changes_no_handle [OF e] have "vars m' = vars m \<and> brk (mem m') = brk (mem m)"
    by blast
  with r e v show ?thesis by auto
qed

section \<open>RELEASE_MODE against checked mode\<close>


















































end
